theory Spec2Isabelle
  imports Main "HOL-Library.Sublist"
begin

section \<open>The syntax trees read by the walker\<close>

text \<open>
  The walker of \<^verbatim>\<open>llama_index/readers/docstring_walker/base.py\<close> reads the trees that
  Python's \<^verbatim>\<open>ast.parse\<close> builds. Only the parts of a tree that the walker looks at are
  kept: of a decorator expression, whether it is an \<^verbatim>\<open>ast.Call\<close>, an \<^verbatim>\<open>ast.Name\<close>, an
  \<^verbatim>\<open>ast.Attribute\<close> or something else; of a statement, whether it is an
  \<^verbatim>\<open>ast.FunctionDef\<close>, an \<^verbatim>\<open>ast.AsyncFunctionDef\<close>, an \<^verbatim>\<open>ast.ClassDef\<close> or any other
  statement. The three definition nodes carry the same attributes: \<^verbatim>\<open>name\<close>,
  \<^verbatim>\<open>decorator_list\<close> and \<^verbatim>\<open>body\<close>. The field \<open>docstring\<close> of a node holds the value that
  the library call \<^verbatim>\<open>ast.get_docstring(node)\<close> returns for it (\<open>None\<close> when the body does
  not start with a string constant); the statement that carries the docstring is one of
  the other statements of the body.
\<close>

datatype expr =
    Name string
  | Attribute expr string
  | Call expr "expr list"
  | OtherExpr

datatype stmt =
    FunctionDef defn
  | AsyncFunctionDef defn
  | ClassDef defn
  | OtherStmt
and defn =
    Defn (name: string) (decorator_list: "expr list") (docstring: "string option")
      (body: "stmt list")

datatype module =
    Module (mbody: "stmt list") (mdocstring: "string option")

text \<open>The \<^verbatim>\<open>Document\<close> of llama-index: its text and its metadata dictionary.\<close>

record document =
  doc_text :: string
  doc_metadata :: "(string \<times> string) list"


section \<open>Python values and strings\<close>

text \<open>
  A Python value that is either \<^verbatim>\<open>None\<close> or a \<^verbatim>\<open>str\<close> is a \<open>string option\<close>. The test
  \<^verbatim>\<open>if x:\<close> holds for a non-empty string only.
\<close>

fun truthy :: "string option \<Rightarrow> bool" where
  "truthy None = False"
| "truthy (Some s) = (s \<noteq> [])"

text \<open>\<^verbatim>\<open>x or ""\<close> for such a value.\<close>

fun or_empty :: "string option \<Rightarrow> string" where
  "or_empty None = []"
| "or_empty (Some s) = (if s \<noteq> [] then s else [])"

text \<open>\<^verbatim>\<open>sep.join(xs)\<close> on a list of strings.\<close>

fun str_join :: "string \<Rightarrow> string list \<Rightarrow> string" where
  "str_join sep [] = []"
| "str_join sep [x] = x"
| "str_join sep (x # y # ys) = x @ sep @ str_join sep (y # ys)"

text \<open>
  \<^verbatim>\<open>file.replace(".py", "")\<close>: every occurrence of \<^verbatim>\<open>.py\<close>, found from left to right
  without overlap, is removed.
\<close>

fun replace_dot_py :: "string \<Rightarrow> string" where
  "replace_dot_py (a # b # c # rest) =
     (if [a, b, c] = ''.py'' then replace_dot_py rest
      else a # replace_dot_py (b # c # rest))"
| "replace_dot_py s = s"


section \<open>Marker detection\<close>

text \<open>
  The test of one decorator in \<^verbatim>\<open>has_decorator_factory\<close>:
  \<^verbatim>\<open>isinstance(decorator, ast.Call) and isinstance(decorator.func, ast.Name)\<close> and then
  \<^verbatim>\<open>decorator.func.id == decorator_factory\<close>.
\<close>

fun decorator_matches :: "expr \<Rightarrow> string \<Rightarrow> bool" where
  "decorator_matches (Call (Name ident) args) decorator_factory = (ident = decorator_factory)"
| "decorator_matches _ decorator_factory = False"

text \<open>The loop over \<^verbatim>\<open>func_node.decorator_list\<close>, which returns at the first match.\<close>

fun decorator_loop :: "expr list \<Rightarrow> string \<Rightarrow> bool" where
  "decorator_loop [] decorator_factory = False"
| "decorator_loop (decorator # rest) decorator_factory =
     (if decorator_matches decorator decorator_factory then True
      else decorator_loop rest decorator_factory)"

definition has_decorator_factory :: "defn \<Rightarrow> string \<Rightarrow> bool" where
  "has_decorator_factory func_node decorator_factory =
     decorator_loop (decorator_list func_node) decorator_factory"

text \<open>
  \<^verbatim>\<open>module_has_decorator_factory(module, decorator_factory)\<close> reads nothing of its first
  argument but \<^verbatim>\<open>module.body\<close>, so the model takes that body, of an \<^verbatim>\<open>ast.Module\<close> or
  of an \<^verbatim>\<open>ast.ClassDef\<close>. An element that is a class whose body has no match falls
  through to the \<^verbatim>\<open>elif\<close>, which fails for it, and the loop goes on.
\<close>

fun module_has_decorator_factory :: "stmt list \<Rightarrow> string \<Rightarrow> bool" where
  "module_has_decorator_factory [] decorator_factory = False"
| "module_has_decorator_factory (ClassDef (Defn n ds doc b) # rest) decorator_factory =
     (if module_has_decorator_factory b decorator_factory then True
      else module_has_decorator_factory rest decorator_factory)"
| "module_has_decorator_factory (FunctionDef func_node # rest) decorator_factory =
     (if has_decorator_factory func_node decorator_factory then True
      else module_has_decorator_factory rest decorator_factory)"
| "module_has_decorator_factory (_ # rest) decorator_factory =
     module_has_decorator_factory rest decorator_factory"


section \<open>Rendering\<close>

text \<open>
  \<^verbatim>\<open>process_function\<close> has a \<^verbatim>\<open>return\<close> only under its \<^verbatim>\<open>if\<close>: for a function without
  the decorator the body runs off its end and the call yields \<^verbatim>\<open>None\<close>.
\<close>

definition process_function :: "defn \<Rightarrow> string \<Rightarrow> string option" where
  "process_function func_node parent_node =
     (if has_decorator_factory func_node ''register_tool''
      then Some (''\<newline>Function: '' @ name func_node @ ''\<newline>''
                 @ or_empty (docstring func_node))
      else None)"

text \<open>
  \<^verbatim>\<open>process_elem\<close> and \<^verbatim>\<open>process_class\<close> call each other. \<open>process_class_loop\<close> is the
  \<^verbatim>\<open>for\<close> loop of \<^verbatim>\<open>process_class\<close>: it yields \<^verbatim>\<open>sub_texts\<close>, the truthy results in
  body order.
\<close>

fun process_elem :: "stmt \<Rightarrow> string \<Rightarrow> string option"
  and process_class :: "defn \<Rightarrow> string \<Rightarrow> string"
  and process_class_loop :: "stmt list \<Rightarrow> string \<Rightarrow> string list" where
  "process_elem (FunctionDef func_node) parent_node = process_function func_node parent_node"
| "process_elem (ClassDef class_node) parent_node = Some (process_class class_node parent_node)"
| "process_elem (AsyncFunctionDef _) parent_node = Some []"
| "process_elem OtherStmt parent_node = Some []"
| "process_class (Defn n ds doc b) parent_node = str_join ''\<newline>'' (process_class_loop b n)"
| "process_class_loop [] class_name = []"
| "process_class_loop (elem # rest) class_name =
     (case process_elem elem class_name of
        None \<Rightarrow> process_class_loop rest class_name
      | Some result \<Rightarrow>
          if result \<noteq> [] then result # process_class_loop rest class_name
          else process_class_loop rest class_name)"


section \<open>One file\<close>

text \<open>
  What lies outside the walker is a parameter: the file system behind \<^verbatim>\<open>open\<close> and
  \<^verbatim>\<open>os.walk\<close>, the parser \<^verbatim>\<open>ast.parse\<close>, and the path functions of \<^verbatim>\<open>os.path\<close>. Reading
  and parsing may raise; an exception carries the text that \<^verbatim>\<open>str\<close> gives for it.
\<close>

datatype error =
    OSError (message: string)
  | UnicodeDecodeError (message: string)
  | SyntaxError (message: string)

record env =
  os_walk :: "string \<Rightarrow> (string \<times> string list \<times> string list) list"
  open_read :: "string \<Rightarrow> error + string"
  ast_parse :: "string \<Rightarrow> error + module"
  path_join :: "string \<Rightarrow> string \<Rightarrow> string"
  path_basename :: "string \<Rightarrow> string"

definition read_module_text :: "env \<Rightarrow> string \<Rightarrow> error + string" where
  "read_module_text e path = open_read e path"

text \<open>
  \<^verbatim>\<open>TYPES_TO_PROCESS = {ast.FunctionDef, ast.ClassDef}\<close>, as the test
  \<^verbatim>\<open>type(elem) in TYPES_TO_PROCESS\<close>.
\<close>

fun in_TYPES_TO_PROCESS :: "stmt \<Rightarrow> bool" where
  "in_TYPES_TO_PROCESS (FunctionDef _) = True"
| "in_TYPES_TO_PROCESS (ClassDef _) = True"
| "in_TYPES_TO_PROCESS _ = False"

text \<open>The loop of \<^verbatim>\<open>parse_module\<close> over \<^verbatim>\<open>module.body\<close>, which yields \<^verbatim>\<open>sub_texts\<close>.\<close>

fun parse_module_loop :: "stmt list \<Rightarrow> string \<Rightarrow> string list" where
  "parse_module_loop [] module_name = []"
| "parse_module_loop (elem # rest) module_name =
     (if in_TYPES_TO_PROCESS elem then
        (case process_elem elem module_name of
           None \<Rightarrow> parse_module_loop rest module_name
         | Some sub_text \<Rightarrow>
             if sub_text \<noteq> [] then sub_text # parse_module_loop rest module_name
             else parse_module_loop rest module_name)
      else parse_module_loop rest module_name)"

text \<open>The text of \<^verbatim>\<open>parse_module\<close> before the rendered elements are appended.\<close>

definition module_header :: "string \<Rightarrow> string option \<Rightarrow> string" where
  "module_header module_name module_docstring =
     (let module_text = ''Module: '' @ module_name @ '' \<newline>''
      in case module_docstring of
           None \<Rightarrow> module_text
         | Some d \<Rightarrow>
             if d \<noteq> [] then module_text @ ''Docstring: '' @ d @ '' \<newline>''
             else module_text)"

definition parse_module :: "env \<Rightarrow> string \<Rightarrow> string \<Rightarrow> error + document option" where
  "parse_module e module_name path =
     (case read_module_text e path of
        Inl err \<Rightarrow> Inl err
      | Inr module_text \<Rightarrow>
          (case ast_parse e module_text of
             Inl err \<Rightarrow> Inl err
           | Inr m \<Rightarrow>
               if \<not> module_has_decorator_factory (mbody m) ''register_tool''
               then Inr None
               else Inr (Some
                 \<lparr>doc_text = module_header module_name (mdocstring m)
                     @ str_join ''\<newline>'' (parse_module_loop (mbody m) module_name),
                  doc_metadata = [(''file_name'', path_basename e path)]\<rparr>)))"


section \<open>A directory\<close>

text \<open>
  \<^verbatim>\<open>process_directory\<close> changes two things as it runs: the list \<^verbatim>\<open>llama_docs\<close> and the
  log, to which \<^verbatim>\<open>log.warning\<close> adds a formatted message. A loop returns the exception
  that left it, if any, with the state reached.
\<close>

record walker_state =
  llama_docs :: "document list"
  log_warnings :: "string list"

definition warning_message :: "string \<Rightarrow> error \<Rightarrow> string" where
  "warning_message module_path err =
     ''Failed to parse file '' @ module_path @ ''. Skipping. Error: '' @ message err"

text \<open>
  The inner loop, over the files of one directory. A \<^verbatim>\<open>Document\<close> is an object without
  a length or a truth value of its own, so \<^verbatim>\<open>if doc:\<close> fails for \<^verbatim>\<open>None\<close> only.
\<close>

fun process_files ::
  "env \<Rightarrow> bool \<Rightarrow> bool \<Rightarrow> string \<Rightarrow> string list \<Rightarrow> walker_state
     \<Rightarrow> error option \<times> walker_state" where
  "process_files e skip_initpy fail_on_malformed_files root [] st = (None, st)"
| "process_files e skip_initpy fail_on_malformed_files root (file # files) st =
     (if suffix ''.py'' file then
        if skip_initpy \<and> file = ''__init__.py''
        then process_files e skip_initpy fail_on_malformed_files root files st
        else
          (let module_name = replace_dot_py file;
               module_path = path_join e root file
           in case parse_module e module_name module_path of
                Inr None \<Rightarrow>
                  process_files e skip_initpy fail_on_malformed_files root files st
              | Inr (Some doc) \<Rightarrow>
                  process_files e skip_initpy fail_on_malformed_files root files
                    (st\<lparr>llama_docs := llama_docs st @ [doc]\<rparr>)
              | Inl err \<Rightarrow>
                  if fail_on_malformed_files then (Some err, st)
                  else process_files e skip_initpy fail_on_malformed_files root files
                         (st\<lparr>log_warnings :=
                              log_warnings st @ [warning_message module_path err]\<rparr>))
      else process_files e skip_initpy fail_on_malformed_files root files st)"

text \<open>The outer loop, over the triples that \<^verbatim>\<open>os.walk\<close> yields.\<close>

fun process_roots ::
  "env \<Rightarrow> bool \<Rightarrow> bool \<Rightarrow> (string \<times> string list \<times> string list) list \<Rightarrow> walker_state
     \<Rightarrow> error option \<times> walker_state" where
  "process_roots e skip_initpy fail_on_malformed_files [] st = (None, st)"
| "process_roots e skip_initpy fail_on_malformed_files ((root, dirs, files) # rest) st =
     (case process_files e skip_initpy fail_on_malformed_files root files st of
        (Some err, st') \<Rightarrow> (Some err, st')
      | (None, st') \<Rightarrow> process_roots e skip_initpy fail_on_malformed_files rest st')"

text \<open>The result is the exception raised or the list returned, and the warnings logged.\<close>

definition process_directory ::
  "env \<Rightarrow> string \<Rightarrow> bool \<Rightarrow> bool \<Rightarrow> (error + document list) \<times> string list" where
  "process_directory e code_dir skip_initpy fail_on_malformed_files =
     (case process_roots e skip_initpy fail_on_malformed_files (os_walk e code_dir)
             \<lparr>llama_docs = [], log_warnings = []\<rparr> of
        (Some err, st) \<Rightarrow> (Inl err, log_warnings st)
      | (None, st) \<Rightarrow> (Inr (llama_docs st), log_warnings st))"


section \<open>Notions used to state the properties\<close>

text \<open>
  The fragments that the specification asks of a module body: the truthy results of
  rendering, in body order, the top-level declarations that are functions or classes.
\<close>

definition rendered_elements :: "stmt list \<Rightarrow> string \<Rightarrow> string list" where
  "rendered_elements stmts module_name =
     map the (filter truthy (map (\<lambda>elem. process_elem elem module_name)
       (filter in_TYPES_TO_PROCESS stmts)))"

text \<open>
  The module of the specification's scenario A: a module docstring \<^verbatim>\<open>desc\<close>, a function
  \<^verbatim>\<open>f\<close> under \<^verbatim>\<open>@register_tool()\<close> with the docstring \<^verbatim>\<open>does f\<close>, and a function \<^verbatim>\<open>g\<close>
  without decorators.
\<close>

definition scenario_A :: module where
  "scenario_A =
     Module
       [OtherStmt,
        FunctionDef (Defn ''f'' [Call (Name ''register_tool'') []] (Some ''does f'')
          [OtherStmt, OtherStmt]),
        FunctionDef (Defn ''g'' [] None [OtherStmt])]
       (Some ''desc'')"

text \<open>
  Every declaration of a body, at any depth and under any kind of parent, that carries
  the marker itself.
\<close>

fun marked_decls :: "stmt list \<Rightarrow> string \<Rightarrow> stmt list" where
  "marked_decls [] f = []"
| "marked_decls (FunctionDef (Defn n ds doc b) # rest) f =
     (if has_decorator_factory (Defn n ds doc b) f then [FunctionDef (Defn n ds doc b)] else [])
       @ marked_decls b f @ marked_decls rest f"
| "marked_decls (AsyncFunctionDef (Defn n ds doc b) # rest) f =
     (if has_decorator_factory (Defn n ds doc b) f then [AsyncFunctionDef (Defn n ds doc b)] else [])
       @ marked_decls b f @ marked_decls rest f"
| "marked_decls (ClassDef (Defn n ds doc b) # rest) f =
     (if has_decorator_factory (Defn n ds doc b) f then [ClassDef (Defn n ds doc b)] else [])
       @ marked_decls b f @ marked_decls rest f"
| "marked_decls (OtherStmt # rest) f = marked_decls rest f"

fun is_async :: "stmt \<Rightarrow> bool" where
  "is_async (AsyncFunctionDef _) = True"
| "is_async _ = False"

text \<open>
  The batch of a directory walk, in the words of the specification: the files with the
  extension \<^verbatim>\<open>.py\<close>, without the package-init files when they are skipped, each with
  its module name and its path, in the order of the walk.
\<close>

definition files_to_parse :: "env \<Rightarrow> bool \<Rightarrow> string \<Rightarrow> string list \<Rightarrow> (string \<times> string) list" where
  "files_to_parse e skip_initpy root files =
     map (\<lambda>file. (replace_dot_py file, path_join e root file))
       (filter (\<lambda>file. suffix ''.py'' file \<and> \<not> (skip_initpy \<and> file = ''__init__.py'')) files)"

definition roots_to_parse ::
  "env \<Rightarrow> bool \<Rightarrow> (string \<times> string list \<times> string list) list \<Rightarrow> (string \<times> string) list" where
  "roots_to_parse e skip_initpy walk =
     concat (map (\<lambda>(root, dirs, files). files_to_parse e skip_initpy root files) walk)"

definition batch :: "env \<Rightarrow> string \<Rightarrow> bool \<Rightarrow> (string \<times> string) list" where
  "batch e code_dir skip_initpy = roots_to_parse e skip_initpy (os_walk e code_dir)"

text \<open>
  What a batch yields file by file: the documents of the files that produce one, the
  warnings for the files that fail, and the error of the first file that fails.
\<close>

fun batch_documents :: "env \<Rightarrow> (string \<times> string) list \<Rightarrow> document list" where
  "batch_documents e [] = []"
| "batch_documents e ((module_name, module_path) # rest) =
     (case parse_module e module_name module_path of
        Inr (Some doc) \<Rightarrow> doc # batch_documents e rest
      | Inr None \<Rightarrow> batch_documents e rest
      | Inl err \<Rightarrow> batch_documents e rest)"

fun batch_warnings :: "env \<Rightarrow> (string \<times> string) list \<Rightarrow> string list" where
  "batch_warnings e [] = []"
| "batch_warnings e ((module_name, module_path) # rest) =
     (case parse_module e module_name module_path of
        Inl err \<Rightarrow> warning_message module_path err # batch_warnings e rest
      | Inr doc \<Rightarrow> batch_warnings e rest)"

fun first_error :: "env \<Rightarrow> (string \<times> string) list \<Rightarrow> error option" where
  "first_error e [] = None"
| "first_error e ((module_name, module_path) # rest) =
     (case parse_module e module_name module_path of
        Inl err \<Rightarrow> Some err
      | Inr doc \<Rightarrow> first_error e rest)"

text \<open>
  A small file system for the concrete instances: \<^verbatim>\<open>mod.py\<close> holds scenario A,
  \<^verbatim>\<open>plain.py\<close> has no marked function, \<^verbatim>\<open>bad.py\<close> does not parse, \<^verbatim>\<open>gone.py\<close> cannot be
  read, \<^verbatim>\<open>aio.py\<close> has a marked coroutine only, and \<^verbatim>\<open>tools.py\<close> has a class with a
  marked method. A file's text stands for itself under its path.
\<close>

definition example_tools :: module where
  "example_tools =
     Module
       [ClassDef (Defn ''C'' [] None
          [FunctionDef (Defn ''m'' [Call (Name ''register_tool'') []] None [OtherStmt]),
           FunctionDef (Defn ''n'' [] None [OtherStmt])])]
       None"

definition example_aio :: module where
  "example_aio =
     Module
       [AsyncFunctionDef (Defn ''fetch'' [Call (Name ''register_tool'') []] (Some ''fetches'')
          [OtherStmt, OtherStmt]),
        FunctionDef (Defn ''helper'' [Name ''staticmethod''] None [OtherStmt])]
       None"

definition example_env :: env where
  "example_env =
     \<lparr>os_walk = (\<lambda>code_dir.
        if code_dir = ''pkg''
        then [(''pkg'', [''sub''],
                 [''mod.py'', ''bad.py'', ''plain.py'', ''notes.txt'', ''__init__.py'']),
              (''pkg/sub'', [], [''gone.py'', ''aio.py'', ''tools.py''])]
        else []),
      open_read = (\<lambda>path.
        if path = ''pkg/sub/gone.py'' then Inl (OSError ''No such file'') else Inr path),
      ast_parse = (\<lambda>module_text.
        if module_text = ''pkg/mod.py'' then Inr scenario_A
        else if module_text = ''pkg/sub/tools.py'' then Inr example_tools
        else if module_text = ''pkg/sub/aio.py'' then Inr example_aio
        else if module_text = ''pkg/bad.py'' then Inl (SyntaxError ''invalid syntax'')
        else Inr (Module [FunctionDef (Defn ''g'' [] None [OtherStmt])] None)),
      path_join = (\<lambda>a p. a @ ''/'' @ p),
      path_basename = (\<lambda>p. rev (takeWhile (\<lambda>c. c \<noteq> CHR ''/'') (rev p)))\<rparr>"


section \<open>Properties of the marker detection\<close>

lemma decorator_matches_iff:
  "decorator_matches d f = (\<exists>args. d = Call (Name f) args)"
  by (induction d f rule: decorator_matches.induct) auto

lemma decorator_loop_iff:
  "decorator_loop ds f = (\<exists>args. Call (Name f) args \<in> set ds)"
  by (induction ds) (auto simp: decorator_matches_iff)

text \<open>
  Claim C6. \<open>has_decorator_factory\<close> holds of a node exactly when its decorator list has
  an entry that is a call whose callee is the bare name \<open>f\<close>. A decorator that is a bare
  name, an attribute access, a call of an attribute, or a call of another name does not
  match. The body of the node plays no part.
\<close>

theorem has_decorator_factory_iff:
  "has_decorator_factory d f = (\<exists>args. Call (Name f) args \<in> set (decorator_list d))
   \<and> \<not> has_decorator_factory (Defn n [Name f] doc b) f
   \<and> \<not> has_decorator_factory (Defn n [Attribute obj f] doc b) f
   \<and> \<not> has_decorator_factory (Defn n [Call (Attribute obj f) args] doc b) f
   \<and> has_decorator_factory (Defn n [Call (Name g) args] doc b) f = (g = f)
   \<and> has_decorator_factory (Defn n ds doc b) f = has_decorator_factory (Defn n ds doc b') f"
  by (auto simp add: has_decorator_factory_def decorator_loop_iff)

lemma module_has_iff:
  "module_has_decorator_factory stmts f =
     (\<exists>child \<in> set stmts.
        case child of
          ClassDef c \<Rightarrow> module_has_decorator_factory (body c) f
        | FunctionDef fn \<Rightarrow> has_decorator_factory fn f
        | _ \<Rightarrow> False)"
  by (induction stmts f rule: module_has_decorator_factory.induct) auto

text \<open>
  Claim C3. \<open>module_has_decorator_factory\<close> holds of a body exactly when some child is a
  class whose body it holds of, or a function that carries the marker itself. It fails
  on the empty body, holds for a marked function at top level and for one nested three
  classes deep, fails when the only marked function is defined inside an unmarked
  function, and never depends on the body of a function.
\<close>

theorem module_has_decorator_factory_iff:
  "module_has_decorator_factory stmts f =
     (\<exists>child \<in> set stmts.
        case child of
          ClassDef c \<Rightarrow> module_has_decorator_factory (body c) f
        | FunctionDef fn \<Rightarrow> has_decorator_factory fn f
        | _ \<Rightarrow> False)
   \<and> \<not> module_has_decorator_factory [] f
   \<and> module_has_decorator_factory [FunctionDef (Defn n [Call (Name f) args] doc b)] f
   \<and> module_has_decorator_factory
         [ClassDef (Defn c1 ds1 doc1
            [ClassDef (Defn c2 ds2 doc2
               [ClassDef (Defn c3 ds3 doc3
                  [FunctionDef (Defn n [Call (Name f) args] doc b)])])])] f
   \<and> \<not> module_has_decorator_factory
         [FunctionDef (Defn outer [] doc1
            [FunctionDef (Defn inner [Call (Name f) args] doc2 b)])] f
   \<and> module_has_decorator_factory (FunctionDef (Defn n ds doc b) # rest) f =
       module_has_decorator_factory (FunctionDef (Defn n ds doc b') # rest) f"
  using module_has_iff [of stmts f]
  by (simp add: has_decorator_factory_def)


section \<open>Properties of the rendering\<close>

text \<open>
  Claim C5. A function whose decorator list has a call of the bare name
  \<^verbatim>\<open>register_tool\<close> is rendered as a newline, \<^verbatim>\<open>Function: \<close> and its name, a newline, and
  its docstring, or nothing in place of the docstring when it has none.
\<close>

theorem process_function_marked:
  assumes "Call (Name ''register_tool'') args \<in> set (decorator_list func_node)"
  shows "process_function func_node parent_node =
           Some (''\<newline>Function: '' @ name func_node @ ''\<newline>''
                 @ (case docstring func_node of None \<Rightarrow> [] | Some d \<Rightarrow> d))
         \<and> process_elem (FunctionDef func_node) parent_node =
           Some (''\<newline>Function: '' @ name func_node @ ''\<newline>''
                 @ (case docstring func_node of None \<Rightarrow> [] | Some d \<Rightarrow> d))"
proof -
  have "has_decorator_factory func_node ''register_tool''"
    unfolding has_decorator_factory_def decorator_loop_iff using assms by blast
  moreover have "or_empty (docstring func_node) =
      (case docstring func_node of None \<Rightarrow> [] | Some d \<Rightarrow> d)"
    by (cases "docstring func_node") auto
  ultimately show ?thesis by (simp add: process_function_def)
qed

theorem process_function_marked_witness:
  "Call (Name ''register_tool'') []
     \<in> set (decorator_list
         (Defn ''f'' [Call (Name ''register_tool'') []] (Some ''does f'') [OtherStmt]))
   \<and> process_function
         (Defn ''f'' [Call (Name ''register_tool'') []] (Some ''does f'') [OtherStmt]) ''mod''
       = Some ''\<newline>Function: f\<newline>does f''
   \<and> process_elem (FunctionDef (Defn ''m'' [Call (Name ''register_tool'') []] None [])) ''C''
       = Some ''\<newline>Function: m\<newline>''"
proof -
  have h: "Call (Name ''register_tool'') [] \<in> set (decorator_list (Defn x [Call (Name ''register_tool'') []] y z))"
    for x y z by simp
  show ?thesis
    using process_function_marked [OF h, of "''f''" "Some ''does f''" "[OtherStmt]" "''mod''"]
      process_function_marked [OF h, of "''m''" None "[]" "''C''"]
    by simp
qed

text \<open>
  Claim C2, at a function without decorators: \<open>process_function\<close> and \<open>process_elem\<close>
  yield \<^verbatim>\<open>None\<close> for it, which is not the empty string.
\<close>

theorem process_function_unmarked_returns_None:
  "process_function (Defn ''g'' [] None [OtherStmt]) ''mod'' = None
   \<and> process_elem (FunctionDef (Defn ''g'' [] None [OtherStmt])) ''mod'' = None
   \<and> process_elem (FunctionDef (Defn ''g'' [] None [OtherStmt])) ''mod'' \<noteq> Some []"
  by (simp add: process_function_def has_decorator_factory_def)

lemma process_class_loop_eq:
  "process_class_loop b n =
     map the (filter truthy (map (\<lambda>child. process_elem child n) b))"
  by (induction b) (auto split: option.splits)

text \<open>
  Claim C4. A class is rendered as the newline-join of the truthy results of rendering
  its direct children under the class's name, in body order. The decorators of the class
  play no part, and the result is empty when no child gives a truthy result.
\<close>

theorem process_class_join:
  "process_class c parent_node =
     str_join ''\<newline>''
       (map the (filter truthy (map (\<lambda>child. process_elem child (name c)) (body c))))
   \<and> process_class (Defn n ds doc b) parent_node = process_class (Defn n ds' doc b) parent_node
   \<and> process_elem (ClassDef c) parent_node = Some (process_class c parent_node)
   \<and> ((\<forall>child \<in> set (body c). \<not> truthy (process_elem child (name c)))
        \<longrightarrow> process_class c parent_node = [])"
proof -
  have eq: "process_class c parent_node =
     str_join ''\<newline>''
       (map the (filter truthy (map (\<lambda>child. process_elem child (name c)) (body c))))"
    by (cases c) (simp add: process_class_loop_eq)
  have "filter truthy (map (\<lambda>child. process_elem child (name c)) (body c)) = []"
    if "\<forall>child \<in> set (body c). \<not> truthy (process_elem child (name c))"
    using that by (simp add: filter_empty_conv)
  with eq show ?thesis by simp
qed

theorem process_class_join_witness:
  "process_class
     (Defn ''C'' [Call (Name ''register_tool'') []] None
        [FunctionDef (Defn ''m'' [Call (Name ''register_tool'') []] None []),
         FunctionDef (Defn ''n'' [] (Some ''doc of n'') [OtherStmt]),
         AsyncFunctionDef (Defn ''a'' [Call (Name ''register_tool'') []] None []),
         FunctionDef (Defn ''k'' [Call (Name ''register_tool'') []] (Some ''does k'') [OtherStmt])])
     ''mod''
     = ''\<newline>Function: m\<newline>\<newline>\<newline>Function: k\<newline>does k''
   \<and> list_all (\<lambda>child. \<not> truthy (process_elem child ''D''))
        [FunctionDef (Defn ''n'' [] None []), OtherStmt]
   \<and> process_class (Defn ''D'' [] None [FunctionDef (Defn ''n'' [] None []), OtherStmt]) ''mod''
     = []"
proof -
  let ?D = "Defn ''D'' [] None [FunctionDef (Defn ''n'' [] None []), OtherStmt]"
  have h: "\<forall>child \<in> set (body ?D). \<not> truthy (process_elem child (name ?D))"
    by (simp add: process_function_def has_decorator_factory_def)
  have empty: "process_class ?D ''mod'' = []"
    by (rule process_class_join [THEN conjunct2, THEN conjunct2, THEN conjunct2,
          THEN mp, OF h])
  have joined: "process_class
     (Defn ''C'' [Call (Name ''register_tool'') []] None
        [FunctionDef (Defn ''m'' [Call (Name ''register_tool'') []] None []),
         FunctionDef (Defn ''n'' [] (Some ''doc of n'') [OtherStmt]),
         AsyncFunctionDef (Defn ''a'' [Call (Name ''register_tool'') []] None []),
         FunctionDef (Defn ''k'' [Call (Name ''register_tool'') []] (Some ''does k'') [OtherStmt])])
     ''mod''
     = ''\<newline>Function: m\<newline>\<newline>\<newline>Function: k\<newline>does k''"
    by (simp add: process_class_join [THEN conjunct1] process_function_def
          has_decorator_factory_def)
  from h have "list_all (\<lambda>child. \<not> truthy (process_elem child ''D''))
        [FunctionDef (Defn ''n'' [] None []), OtherStmt]"
    by simp
  with empty joined show ?thesis by simp
qed


section \<open>Properties of one file\<close>

lemma parse_module_loop_eq:
  "parse_module_loop stmts module_name = rendered_elements stmts module_name"
  unfolding rendered_elements_def
  by (induction stmts) (auto split: option.splits)

text \<open>
  Claim C1. When the file is read and parsed and its module qualifies, \<open>parse_module\<close>
  returns a document whose text is the header line with the module name, then the
  docstring line if the module has a non-empty docstring, then the newline-join of the
  rendered fragments of the top-level functions and classes; its metadata names the file.
  For the module of scenario A the text is the one the specification gives.
\<close>

theorem parse_module_text:
  assumes "read_module_text e path = Inr src" and "ast_parse e src = Inr m"
  shows "(module_has_decorator_factory (mbody m) ''register_tool'' \<longrightarrow>
           parse_module e module_name path =
             Inr (Some \<lparr>doc_text =
                 ''Module: '' @ module_name @ '' \<newline>''
                 @ (case mdocstring m of
                      None \<Rightarrow> []
                    | Some d \<Rightarrow> if d \<noteq> [] then ''Docstring: '' @ d @ '' \<newline>'' else [])
                 @ str_join ''\<newline>'' (rendered_elements (mbody m) module_name),
               doc_metadata = [(''file_name'', path_basename e path)]\<rparr>))
       \<and> (m = scenario_A \<longrightarrow>
           parse_module e ''mod'' path =
             Inr (Some \<lparr>doc_text = ''Module: mod \<newline>Docstring: desc \<newline>\<newline>Function: f\<newline>does f'',
               doc_metadata = [(''file_name'', path_basename e path)]\<rparr>))"
proof (intro conjI impI)
  assume q: "module_has_decorator_factory (mbody m) ''register_tool''"
  have "module_header module_name (mdocstring m) =
      ''Module: '' @ module_name @ '' \<newline>''
       @ (case mdocstring m of
            None \<Rightarrow> []
          | Some d \<Rightarrow> if d \<noteq> [] then ''Docstring: '' @ d @ '' \<newline>'' else [])"
    by (simp add: module_header_def split: option.splits)
  with q assms show "parse_module e module_name path =
             Inr (Some \<lparr>doc_text =
                 ''Module: '' @ module_name @ '' \<newline>''
                 @ (case mdocstring m of
                      None \<Rightarrow> []
                    | Some d \<Rightarrow> if d \<noteq> [] then ''Docstring: '' @ d @ '' \<newline>'' else [])
                 @ str_join ''\<newline>'' (rendered_elements (mbody m) module_name),
               doc_metadata = [(''file_name'', path_basename e path)]\<rparr>)"
    by (simp add: parse_module_def parse_module_loop_eq)
next
  assume "m = scenario_A"
  with assms show "parse_module e ''mod'' path =
             Inr (Some \<lparr>doc_text = ''Module: mod \<newline>Docstring: desc \<newline>\<newline>Function: f\<newline>does f'',
               doc_metadata = [(''file_name'', path_basename e path)]\<rparr>)"
    by (simp add: parse_module_def scenario_A_def module_header_def process_function_def
          has_decorator_factory_def)
qed

theorem parse_module_text_witness:
  "read_module_text example_env ''pkg/mod.py'' = Inr ''pkg/mod.py''
   \<and> ast_parse example_env ''pkg/mod.py'' = Inr scenario_A
   \<and> module_has_decorator_factory (mbody scenario_A) ''register_tool''
   \<and> parse_module example_env ''mod'' ''pkg/mod.py'' =
       Inr (Some \<lparr>doc_text =
              ''Module: mod \<newline>Docstring: desc \<newline>\<newline>Function: f\<newline>does f'',
            doc_metadata = [(''file_name'', ''mod.py'')]\<rparr>)"
proof -
  have r: "read_module_text example_env ''pkg/mod.py'' = Inr ''pkg/mod.py''"
    by (simp add: read_module_text_def example_env_def)
  have p: "ast_parse example_env ''pkg/mod.py'' = Inr scenario_A"
    by (simp add: example_env_def)
  have q: "module_has_decorator_factory (mbody scenario_A) ''register_tool''"
    by (simp add: scenario_A_def has_decorator_factory_def)
  have b: "path_basename example_env ''pkg/mod.py'' = ''mod.py''"
    by (simp add: example_env_def)
  from parse_module_text [OF r p, of "''mod''"] b
  have "parse_module example_env ''mod'' ''pkg/mod.py'' =
       Inr (Some \<lparr>doc_text =
              ''Module: mod \<newline>Docstring: desc \<newline>\<newline>Function: f\<newline>does f'',
            doc_metadata = [(''file_name'', ''mod.py'')]\<rparr>)"
    by simp
  with r p q show ?thesis by simp
qed

text \<open>
  Claim C7. When the file is read and parsed and its module has no marked function that
  the containment check reaches, \<open>parse_module\<close> returns \<^verbatim>\<open>None\<close>, which is a result and
  not an exception.
\<close>

theorem parse_module_not_qualified:
  assumes "read_module_text e path = Inr src" and "ast_parse e src = Inr m"
    and "\<not> module_has_decorator_factory (mbody m) ''register_tool''"
  shows "parse_module e module_name path = Inr None"
  using assms by (simp add: parse_module_def)

theorem parse_module_not_qualified_witness:
  "read_module_text example_env ''pkg/plain.py'' = Inr ''pkg/plain.py''
   \<and> ast_parse example_env ''pkg/plain.py''
       = Inr (Module [FunctionDef (Defn ''g'' [] None [OtherStmt])] None)
   \<and> \<not> module_has_decorator_factory
         (mbody (Module [FunctionDef (Defn ''g'' [] None [OtherStmt])] None)) ''register_tool''
   \<and> parse_module example_env ''plain'' ''pkg/plain.py'' = Inr None"
proof -
  have r: "read_module_text example_env ''pkg/plain.py'' = Inr ''pkg/plain.py''"
    by (simp add: read_module_text_def example_env_def)
  have p: "ast_parse example_env ''pkg/plain.py''
       = Inr (Module [FunctionDef (Defn ''g'' [] None [OtherStmt])] None)"
    by (simp add: example_env_def)
  have q: "\<not> module_has_decorator_factory
         (mbody (Module [FunctionDef (Defn ''g'' [] None [OtherStmt])] None)) ''register_tool''"
    by (simp add: has_decorator_factory_def)
  from parse_module_not_qualified [OF r p q, of "''plain''"] r p q show ?thesis by simp
qed

lemma sublist_in_left: "sublist w x \<Longrightarrow> sublist w (x @ y)"
proof -
  assume "sublist w x"
  then obtain ps ss where "x = ps @ w @ ss" unfolding sublist_def by blast
  then have "x @ y = ps @ w @ (ss @ y)" by simp
  then show ?thesis unfolding sublist_def by blast
qed

lemma sublist_in_right: "sublist w y \<Longrightarrow> sublist w (x @ y)"
proof -
  assume "sublist w y"
  then obtain ps ss where "y = ps @ w @ ss" unfolding sublist_def by blast
  then have "x @ y = (x @ ps) @ w @ ss" by simp
  then show ?thesis unfolding sublist_def by blast
qed

lemma sublist_str_join:
  "x \<in> set xs \<Longrightarrow> sublist w x \<Longrightarrow> sublist w (str_join sep xs)"
proof (induction sep xs rule: str_join.induct)
  case (1 sep)
  then show ?case by simp
next
  case (2 sep x')
  then show ?case by simp
next
  case (3 sep x' y ys)
  show ?case
  proof (cases "x = x'")
    case True
    with 3 have "sublist w (x' @ (sep @ str_join sep (y # ys)))"
      by (simp only: sublist_in_left)
    then show ?thesis by simp
  next
    case False
    with 3 have "sublist w (str_join sep (y # ys))" by simp
    then have "sublist w (x' @ (sep @ str_join sep (y # ys)))"
      by (intro sublist_in_right)
    then show ?thesis by simp
  qed
qed

lemma str_join_nonempty:
  "xs \<noteq> [] \<Longrightarrow> \<forall>x \<in> set xs. x \<noteq> [] \<Longrightarrow> str_join sep xs \<noteq> []"
  by (induction sep xs rule: str_join.induct) auto

lemma process_function_sublist:
  "process_function fn p = Some r \<Longrightarrow> sublist ''\<newline>Function: '' r"
proof -
  assume a: "process_function fn p = Some r"
  then have "r = ''\<newline>Function: '' @ (name fn @ ''\<newline>'' @ or_empty (docstring fn))"
    by (simp add: process_function_def split: if_splits)
  then show ?thesis by (simp only: sublist_append_rightI)
qed

lemma rendered_has_function:
  "(process_elem elem p = Some r \<longrightarrow> r \<noteq> [] \<longrightarrow> sublist ''\<newline>Function: '' r)"
  "(process_class c p \<noteq> [] \<longrightarrow> sublist ''\<newline>Function: '' (process_class c p))"
  "(\<forall>r \<in> set (process_class_loop b n). r \<noteq> [] \<and> sublist ''\<newline>Function: '' r)"
proof (induction elem p and c p and b n arbitrary: r
    rule: process_elem_process_class_process_class_loop.induct)
  case (1 func_node parent_node)
  then show ?case by (simp add: process_function_sublist)
next
  case (2 class_node parent_node)
  then show ?case by (simp del: process_class.simps) blast
next
  case (3 uu parent_node)
  then show ?case by simp
next
  case (4 parent_node)
  then show ?case by simp
next
  case (5 n ds doc b parent_node)
  show ?case
  proof (intro impI)
    assume ne: "process_class (Defn n ds doc b) parent_node \<noteq> []"
    have "process_class_loop b n \<noteq> []"
    proof
      assume "process_class_loop b n = []"
      then have "process_class (Defn n ds doc b) parent_node = []" by simp
      with ne show False by simp
    qed
    then obtain x xs where "process_class_loop b n = x # xs"
      by (cases "process_class_loop b n") simp_all
    then have x: "x \<in> set (process_class_loop b n)" by simp
    with 5 have "sublist ''\<newline>Function: '' x" by blast
    with x have "sublist ''\<newline>Function: '' (str_join ''\<newline>'' (process_class_loop b n))"
      by (rule sublist_str_join)
    then show "sublist ''\<newline>Function: '' (process_class (Defn n ds doc b) parent_node)"
      by simp
  qed
next
  case (6 class_name)
  then show ?case by simp
next
  case (7 elem rest class_name)
  note ih = "7.IH"
  show ?case
  proof (cases "process_elem elem class_name")
    case None
    with ih(2) show ?thesis by simp
  next
    case (Some res)
    show ?thesis
    proof (cases "res = []")
      case True
      with Some ih(4) show ?thesis by simp
    next
      case False
      from Some False ih(1) have "sublist ''\<newline>Function: '' res" by blast
      with Some False ih(3) show ?thesis by simp
    qed
  qed
qed

lemma process_class_loop_elems_nonempty:
  "r \<in> set (process_class_loop b n) \<Longrightarrow> r \<noteq> []"
  using rendered_has_function(3) [of b n] by blast

lemma str_join_loop_nonempty:
  assumes "process_class_loop b n \<noteq> []"
  shows "str_join sep (process_class_loop b n) \<noteq> []"
proof (rule str_join_nonempty [OF assms])
  show "\<forall>x \<in> set (process_class_loop b n). x \<noteq> []"
    using process_class_loop_elems_nonempty by blast
qed

lemma qualified_class_loop:
  "module_has_decorator_factory b f \<Longrightarrow> f = ''register_tool'' \<Longrightarrow> process_class_loop b n \<noteq> []"
proof (induction b f arbitrary: n rule: module_has_decorator_factory.induct)
  case (1 f)
  then show ?case by simp
next
  case (2 n' ds doc b rest f)
  show ?case
  proof (cases "module_has_decorator_factory b f")
    case True
    with 2 have "process_class_loop b n' \<noteq> []" by simp
    then have "str_join ''\<newline>'' (process_class_loop b n') \<noteq> []"
      by (rule str_join_loop_nonempty)
    then show ?thesis by simp
  next
    case False
    with 2 have "process_class_loop rest n \<noteq> []" by simp
    then show ?thesis by (simp split: option.splits)
  qed
next
  case (3 func_node rest f)
  show ?case
  proof (cases "has_decorator_factory func_node f")
    case True
    with 3 show ?thesis by (simp add: process_function_def)
  next
    case False
    with 3 have "process_class_loop rest n \<noteq> []" by simp
    then show ?thesis by (simp split: option.splits)
  qed
qed simp_all

lemma qualified_parse_module_loop:
  "module_has_decorator_factory b f \<Longrightarrow> f = ''register_tool'' \<Longrightarrow> parse_module_loop b n \<noteq> []"
proof (induction b f rule: module_has_decorator_factory.induct)
  case (1 f)
  then show ?case by simp
next
  case (2 n' ds doc b rest f)
  show ?case
  proof (cases "module_has_decorator_factory b f")
    case True
    with 2 have "process_class_loop b n' \<noteq> []" by (simp add: qualified_class_loop)
    then have "str_join ''\<newline>'' (process_class_loop b n') \<noteq> []"
      by (rule str_join_loop_nonempty)
    then show ?thesis by simp
  next
    case False
    with 2 have "parse_module_loop rest n \<noteq> []" by simp
    then show ?thesis by (simp split: option.splits)
  qed
next
  case (3 func_node rest f)
  show ?case
  proof (cases "has_decorator_factory func_node f")
    case True
    with 3 show ?thesis by (simp add: process_function_def)
  next
    case False
    with 3 have "parse_module_loop rest n \<noteq> []" by simp
    then show ?thesis by (simp split: option.splits)
  qed
qed simp_all

lemma parse_module_loop_elems:
  "r \<in> set (parse_module_loop b n) \<Longrightarrow> r \<noteq> [] \<and> sublist ''\<newline>Function: '' r"
proof (induction b)
  case Nil
  then show ?case by simp
next
  case (Cons elem rest)
  show ?case
  proof (cases "in_TYPES_TO_PROCESS elem")
    case False
    with Cons show ?thesis by simp
  next
    case True
    show ?thesis
    proof (cases "process_elem elem n")
      case None
      with True Cons show ?thesis by simp
    next
      case (Some res)
      show ?thesis
      proof (cases "res = []")
        case True
        with Some \<open>in_TYPES_TO_PROCESS elem\<close> Cons show ?thesis by simp
      next
        case False
        with Some rendered_has_function(1) [of elem n res]
        have "sublist ''\<newline>Function: '' res" by blast
        with False Some \<open>in_TYPES_TO_PROCESS elem\<close> Cons show ?thesis by auto
      qed
    qed
  qed
qed

text \<open>
  Claim C9. A document that \<open>parse_module\<close> returns never consists of the header alone:
  its text is the header followed by a non-empty rendering that contains a line starting
  with \<^verbatim>\<open>Function: \<close>.
\<close>

theorem parse_module_document_has_function:
  assumes "parse_module e module_name path = Inr (Some doc)"
  shows "\<exists>src m rendered.
           read_module_text e path = Inr src \<and> ast_parse e src = Inr m
           \<and> doc_text doc = module_header module_name (mdocstring m) @ rendered
           \<and> rendered \<noteq> []
           \<and> sublist ''\<newline>Function: '' rendered
           \<and> sublist ''Function: '' (doc_text doc)"
proof -
  from assms obtain src where src: "read_module_text e path = Inr src"
    by (cases "read_module_text e path") (simp_all add: parse_module_def)
  from assms src obtain m where m: "ast_parse e src = Inr m"
    by (cases "ast_parse e src") (simp_all add: parse_module_def)
  from assms src m have q: "module_has_decorator_factory (mbody m) ''register_tool''"
    by (cases "module_has_decorator_factory (mbody m) ''register_tool''")
      (simp_all add: parse_module_def)
  let ?subs = "parse_module_loop (mbody m) module_name"
  let ?r = "str_join ''\<newline>'' ?subs"
  from assms src m q have "doc = \<lparr>doc_text = module_header module_name (mdocstring m) @ ?r,
      doc_metadata = [(''file_name'', path_basename e path)]\<rparr>"
    by (simp add: parse_module_def)
  then have dt: "doc_text doc = module_header module_name (mdocstring m) @ ?r" by simp
  from q have ne: "?subs \<noteq> []" by (simp add: qualified_parse_module_loop)
  then obtain x xs where "?subs = x # xs" by (cases ?subs) simp_all
  then have x: "x \<in> set ?subs" by simp
  then have "sublist ''\<newline>Function: '' x" by (simp add: parse_module_loop_elems)
  with x have s: "sublist ''\<newline>Function: '' ?r" by (rule sublist_str_join)
  then obtain ps ss where r: "?r = ps @ ''\<newline>Function: '' @ ss"
    unfolding sublist_def by blast
  then have "doc_text doc =
      (module_header module_name (mdocstring m) @ ps @ ''\<newline>'') @ ''Function: '' @ ss"
    using dt by simp
  then have s2: "sublist ''Function: '' (doc_text doc)" unfolding sublist_def by blast
  have "\<forall>y \<in> set ?subs. y \<noteq> []" using parse_module_loop_elems by blast
  with ne have rne: "?r \<noteq> []" by (rule str_join_nonempty)
  from src m dt rne s s2 show ?thesis by blast
qed

theorem parse_module_document_has_function_witness:
  "parse_module example_env ''tools'' ''pkg/sub/tools.py'' =
     Inr (Some \<lparr>doc_text = ''Module: tools \<newline>\<newline>Function: m\<newline>'',
            doc_metadata = [(''file_name'', ''tools.py'')]\<rparr>)
   \<and> (\<exists>src m rendered.
         read_module_text example_env ''pkg/sub/tools.py'' = Inr src
         \<and> ast_parse example_env src = Inr m
         \<and> ''Module: tools \<newline>\<newline>Function: m\<newline>''
             = module_header ''tools'' (mdocstring m) @ rendered
         \<and> rendered \<noteq> []
         \<and> sublist ''\<newline>Function: '' rendered
         \<and> sublist ''Function: '' ''Module: tools \<newline>\<newline>Function: m\<newline>'')"
proof -
  have d: "parse_module example_env ''tools'' ''pkg/sub/tools.py'' =
     Inr (Some \<lparr>doc_text = ''Module: tools \<newline>\<newline>Function: m\<newline>'',
            doc_metadata = [(''file_name'', ''tools.py'')]\<rparr>)"
    by (simp add: parse_module_def read_module_text_def example_env_def example_tools_def
          module_header_def process_function_def has_decorator_factory_def)
  from parse_module_document_has_function [OF d] d show ?thesis by simp
qed

section \<open>Coroutines\<close>

lemma marked_decls_async:
  "marked_decls (AsyncFunctionDef d # rest) f =
     (if has_decorator_factory d f then [AsyncFunctionDef d] else [])
       @ marked_decls (body d) f @ marked_decls rest f"
  by (cases d) simp

lemma qualifies_has_marked_sync:
  "module_has_decorator_factory b f \<Longrightarrow> \<exists>s \<in> set (marked_decls b f). \<not> is_async s"
proof (induction b f rule: module_has_decorator_factory.induct)
  case (1 f)
  then show ?case by simp
next
  case (2 n ds doc b rest f)
  show ?case
  proof (cases "module_has_decorator_factory b f")
    case True
    with 2 obtain s where "s \<in> set (marked_decls b f)" "\<not> is_async s" by blast
    then show ?thesis by auto
  next
    case False
    with 2 obtain s where "s \<in> set (marked_decls rest f)" "\<not> is_async s" by auto
    then show ?thesis by auto
  qed
next
  case (3 func_node rest f)
  obtain n ds doc b where fn: "func_node = Defn n ds doc b" by (cases func_node)
  show ?case
  proof (cases "has_decorator_factory func_node f")
    case True
    with fn show ?thesis by simp
  next
    case False
    with 3 obtain s where "s \<in> set (marked_decls rest f)" "\<not> is_async s" by auto
    with fn show ?thesis by auto
  qed
qed (auto simp: marked_decls_async)

text \<open>
  Claim C10. Functions defined with \<^verbatim>\<open>async def\<close> are invisible: the containment check
  passes over them, the renderer gives the empty string for them, and the top-level loop
  of \<open>parse_module\<close> skips them. So when every declaration of a module that carries the
  marker, at any depth, is such a function, \<open>parse_module\<close> returns \<^verbatim>\<open>None\<close>.
\<close>

theorem async_functions_invisible:
  assumes "read_module_text e path = Inr src" and "ast_parse e src = Inr m"
    and "\<forall>s \<in> set (marked_decls (mbody m) ''register_tool''). is_async s"
  shows "parse_module e module_name path = Inr None
     \<and> module_has_decorator_factory (AsyncFunctionDef d # rest) f =
         module_has_decorator_factory rest f
     \<and> process_elem (AsyncFunctionDef d) parent_node = Some []
     \<and> \<not> in_TYPES_TO_PROCESS (AsyncFunctionDef d)"
proof -
  have "\<not> module_has_decorator_factory (mbody m) ''register_tool''"
    using assms(3) qualifies_has_marked_sync by blast
  with assms(1,2) have "parse_module e module_name path = Inr None"
    by (simp add: parse_module_def)
  then show ?thesis by simp
qed

theorem async_functions_invisible_witness:
  "read_module_text example_env ''pkg/sub/aio.py'' = Inr ''pkg/sub/aio.py''
   \<and> ast_parse example_env ''pkg/sub/aio.py'' = Inr example_aio
   \<and> marked_decls (mbody example_aio) ''register_tool'' =
       [AsyncFunctionDef (Defn ''fetch'' [Call (Name ''register_tool'') []] (Some ''fetches'')
          [OtherStmt, OtherStmt])]
   \<and> parse_module example_env ''aio'' ''pkg/sub/aio.py'' = Inr None"
proof -
  have r: "read_module_text example_env ''pkg/sub/aio.py'' = Inr ''pkg/sub/aio.py''"
    by (simp add: read_module_text_def example_env_def)
  have p: "ast_parse example_env ''pkg/sub/aio.py'' = Inr example_aio"
    by (simp add: example_env_def)
  have md: "marked_decls (mbody example_aio) ''register_tool'' =
       [AsyncFunctionDef (Defn ''fetch'' [Call (Name ''register_tool'') []] (Some ''fetches'')
          [OtherStmt, OtherStmt])]"
    by (simp add: example_aio_def has_decorator_factory_def)
  have h: "\<forall>s \<in> set (marked_decls (mbody example_aio) ''register_tool''). is_async s"
    by (simp add: md)
  from async_functions_invisible [OF r p h, of "''aio''"] r p md show ?thesis by simp
qed

section \<open>Properties of a directory\<close>

lemma batch_documents_append:
  "batch_documents e (xs @ ys) = batch_documents e xs @ batch_documents e ys"
  by (induction e xs rule: batch_documents.induct) (simp_all split: sum.splits option.splits)

lemma batch_warnings_append:
  "batch_warnings e (xs @ ys) = batch_warnings e xs @ batch_warnings e ys"
  by (induction e xs rule: batch_warnings.induct) (simp_all split: sum.splits)

lemma first_error_append:
  "first_error e (xs @ ys) =
     (case first_error e xs of Some err \<Rightarrow> Some err | None \<Rightarrow> first_error e ys)"
  by (induction e xs rule: first_error.induct) (simp_all split: sum.splits)

lemma process_files_lenient:
  "process_files e skip False root files st =
     (None, st\<lparr>llama_docs := llama_docs st @ batch_documents e (files_to_parse e skip root files),
              log_warnings := log_warnings st @ batch_warnings e (files_to_parse e skip root files)\<rparr>)"
proof (induction files arbitrary: st)
  case Nil
  then show ?case by (simp add: files_to_parse_def)
next
  case (Cons f files)
  show ?case
  proof (cases "suffix ''.py'' f \<and> \<not> (skip \<and> f = ''__init__.py'')")
    case False
    then show ?thesis using Cons by (auto simp: files_to_parse_def)
  next
    case True
    then have ft: "files_to_parse e skip root (f # files) =
        (replace_dot_py f, path_join e root f) # files_to_parse e skip root files"
      by (simp add: files_to_parse_def)
    show ?thesis
    proof (cases "parse_module e (replace_dot_py f) (path_join e root f)")
      case (Inl err)
      with True ft Cons show ?thesis by (auto simp: Let_def)
    next
      case (Inr doc)
      with True ft Cons show ?thesis by (cases doc) (auto simp: Let_def)
    qed
  qed
qed

lemma process_files_strict:
  "fst (process_files e skip True root files st) = first_error e (files_to_parse e skip root files)
   \<and> log_warnings (snd (process_files e skip True root files st)) = log_warnings st
   \<and> (first_error e (files_to_parse e skip root files) = None \<longrightarrow>
        llama_docs (snd (process_files e skip True root files st)) =
          llama_docs st @ batch_documents e (files_to_parse e skip root files))"
proof (induction files arbitrary: st)
  case Nil
  then show ?case by (simp add: files_to_parse_def)
next
  case (Cons f files)
  show ?case
  proof (cases "suffix ''.py'' f \<and> \<not> (skip \<and> f = ''__init__.py'')")
    case False
    then have "files_to_parse e skip root (f # files) = files_to_parse e skip root files"
      by (auto simp: files_to_parse_def)
    moreover from False have "process_files e skip True root (f # files) st =
        process_files e skip True root files st"
      by auto
    ultimately show ?thesis using Cons by simp
  next
    case True
    then have ft: "files_to_parse e skip root (f # files) =
        (replace_dot_py f, path_join e root f) # files_to_parse e skip root files"
      by (simp add: files_to_parse_def)
    show ?thesis
    proof (cases "parse_module e (replace_dot_py f) (path_join e root f)")
      case (Inl err)
      with True have "process_files e skip True root (f # files) st = (Some err, st)"
        by (auto simp: Let_def)
      with Inl ft show ?thesis by simp
    next
      case (Inr doc)
      show ?thesis
      proof (cases doc)
        case None
        with Inr True have "process_files e skip True root (f # files) st =
            process_files e skip True root files st"
          by (auto simp: Let_def)
        with Inr None ft Cons show ?thesis by simp
      next
        case (Some d)
        with Inr True have "process_files e skip True root (f # files) st =
            process_files e skip True root files (st\<lparr>llama_docs := llama_docs st @ [d]\<rparr>)"
          by (auto simp: Let_def)
        with Inr Some ft Cons [of "st\<lparr>llama_docs := llama_docs st @ [d]\<rparr>"]
        show ?thesis by simp
      qed
    qed
  qed
qed

lemma process_roots_lenient:
  "process_roots e skip False walk st =
     (None, st\<lparr>llama_docs := llama_docs st @ batch_documents e (roots_to_parse e skip walk),
              log_warnings := log_warnings st @ batch_warnings e (roots_to_parse e skip walk)\<rparr>)"
proof (induction walk arbitrary: st)
  case Nil
  then show ?case by (simp add: roots_to_parse_def)
next
  case (Cons entry walk)
  obtain root dirs files where entry: "entry = (root, dirs, files)" by (cases entry)
  have rt: "roots_to_parse e skip (entry # walk) =
      files_to_parse e skip root files @ roots_to_parse e skip walk"
    by (simp add: roots_to_parse_def entry)
  show ?case
    by (simp add: entry rt [unfolded entry] process_files_lenient Cons
          batch_documents_append batch_warnings_append)
qed

lemma process_roots_strict:
  "fst (process_roots e skip True walk st) = first_error e (roots_to_parse e skip walk)
   \<and> log_warnings (snd (process_roots e skip True walk st)) = log_warnings st
   \<and> (first_error e (roots_to_parse e skip walk) = None \<longrightarrow>
        llama_docs (snd (process_roots e skip True walk st)) =
          llama_docs st @ batch_documents e (roots_to_parse e skip walk))"
proof (induction walk arbitrary: st)
  case Nil
  then show ?case by (simp add: roots_to_parse_def)
next
  case (Cons entry walk)
  obtain root dirs files where entry: "entry = (root, dirs, files)" by (cases entry)
  have rt: "roots_to_parse e skip ((root, dirs, files) # walk) =
      files_to_parse e skip root files @ roots_to_parse e skip walk"
    by (simp add: roots_to_parse_def)
  obtain r st' where pf: "process_files e skip True root files st = (r, st')"
    by (cases "process_files e skip True root files st")
  from process_files_strict [of e skip root files st] pf
  have r: "r = first_error e (files_to_parse e skip root files)"
    and lg: "log_warnings st' = log_warnings st"
    and dc: "first_error e (files_to_parse e skip root files) = None \<Longrightarrow>
        llama_docs st' = llama_docs st @ batch_documents e (files_to_parse e skip root files)"
    by simp_all
  show ?case
  proof (cases r)
    case None
    with pf have "process_roots e skip True ((root, dirs, files) # walk) st =
        process_roots e skip True walk st'"
      by simp
    with None r lg dc Cons [of st'] show ?thesis
      by (simp add: entry rt first_error_append batch_documents_append)
  next
    case (Some err)
    with pf have "process_roots e skip True ((root, dirs, files) # walk) st = (Some err, st')"
      by simp
    with Some r lg show ?thesis
      by (simp add: entry rt first_error_append)
  qed
qed

text \<open>
  Claim C8. \<open>parse_module\<close> passes on an error of reading or of parsing. Under the strict
  policy \<open>process_directory\<close> raises the error of the first file of the batch that fails,
  and otherwise returns the documents of the batch; nothing is logged. Under the lenient
  policy it returns the documents of all files that produce one and logs, for each file
  that fails, a warning that names the path and the error.
\<close>

theorem process_directory_error_policy:
  "(read_module_text e path = Inl err \<longrightarrow> parse_module e module_name path = Inl err)
   \<and> (read_module_text e path = Inr src \<longrightarrow> ast_parse e src = Inl err \<longrightarrow>
        parse_module e module_name path = Inl err)
   \<and> process_directory e code_dir skip True =
       (case first_error e (batch e code_dir skip) of
          Some raised \<Rightarrow> (Inl raised, [])
        | None \<Rightarrow> (Inr (batch_documents e (batch e code_dir skip)), []))
   \<and> process_directory e code_dir skip False =
       (Inr (batch_documents e (batch e code_dir skip)),
        batch_warnings e (batch e code_dir skip))
   \<and> warning_message path err =
       ''Failed to parse file '' @ path @ ''. Skipping. Error: '' @ message err"
proof -
  let ?st = "\<lparr>llama_docs = [], log_warnings = []\<rparr>"
  have p1: "read_module_text e path = Inl err \<longrightarrow> parse_module e module_name path = Inl err"
    by (simp add: parse_module_def)
  have p2: "read_module_text e path = Inr src \<longrightarrow> ast_parse e src = Inl err \<longrightarrow>
        parse_module e module_name path = Inl err"
    by (simp add: parse_module_def)
  obtain r st' where pr: "process_roots e skip True (os_walk e code_dir) ?st = (r, st')"
    by (cases "process_roots e skip True (os_walk e code_dir) ?st")
  from process_roots_strict [of e skip "os_walk e code_dir" ?st] pr
  have r: "first_error e (batch e code_dir skip) = r"
    and lg: "log_warnings st' = []"
    and dc: "first_error e (batch e code_dir skip) = None \<Longrightarrow>
        llama_docs st' = batch_documents e (batch e code_dir skip)"
    by (simp_all add: batch_def)
  note dc = dc [unfolded r]
  have strict: "process_directory e code_dir skip True =
       (case first_error e (batch e code_dir skip) of
          Some raised \<Rightarrow> (Inl raised, [])
        | None \<Rightarrow> (Inr (batch_documents e (batch e code_dir skip)), []))"
  proof (cases r)
    case None
    with pr r lg dc show ?thesis by (simp add: process_directory_def)
  next
    case (Some raised)
    with pr r lg show ?thesis by (simp add: process_directory_def)
  qed
  have lenient: "process_directory e code_dir skip False =
       (Inr (batch_documents e (batch e code_dir skip)),
        batch_warnings e (batch e code_dir skip))"
    by (simp add: process_directory_def process_roots_lenient batch_def)
  from p1 p2 strict lenient show ?thesis by (simp add: warning_message_def)
qed

lemma example_batch:
  "batch example_env ''pkg'' True =
     [(''mod'', ''pkg/mod.py''), (''bad'', ''pkg/bad.py''), (''plain'', ''pkg/plain.py''),
      (''gone'', ''pkg/sub/gone.py''), (''aio'', ''pkg/sub/aio.py''),
      (''tools'', ''pkg/sub/tools.py'')]"
  by (simp add: batch_def roots_to_parse_def files_to_parse_def example_env_def
        suffix_to_prefix)

lemma example_parse_results:
  "parse_module example_env ''mod'' ''pkg/mod.py'' =
     Inr (Some \<lparr>doc_text =
            ''Module: mod \<newline>Docstring: desc \<newline>\<newline>Function: f\<newline>does f'',
          doc_metadata = [(''file_name'', ''mod.py'')]\<rparr>)"
  "parse_module example_env ''bad'' ''pkg/bad.py'' = Inl (SyntaxError ''invalid syntax'')"
  "parse_module example_env ''plain'' ''pkg/plain.py'' = Inr None"
  "parse_module example_env ''gone'' ''pkg/sub/gone.py'' = Inl (OSError ''No such file'')"
  "parse_module example_env ''aio'' ''pkg/sub/aio.py'' = Inr None"
  "parse_module example_env ''tools'' ''pkg/sub/tools.py'' =
     Inr (Some \<lparr>doc_text = ''Module: tools \<newline>\<newline>Function: m\<newline>'',
          doc_metadata = [(''file_name'', ''tools.py'')]\<rparr>)"
  by (simp_all add: parse_module_def read_module_text_def example_env_def scenario_A_def
        example_tools_def example_aio_def module_header_def process_function_def
        has_decorator_factory_def)

theorem process_directory_error_policy_witness:
  "read_module_text example_env ''pkg/sub/gone.py'' = Inl (OSError ''No such file'')
   \<and> parse_module example_env ''gone'' ''pkg/sub/gone.py'' = Inl (OSError ''No such file'')
   \<and> read_module_text example_env ''pkg/bad.py'' = Inr ''pkg/bad.py''
   \<and> ast_parse example_env ''pkg/bad.py'' = Inl (SyntaxError ''invalid syntax'')
   \<and> parse_module example_env ''bad'' ''pkg/bad.py'' = Inl (SyntaxError ''invalid syntax'')
   \<and> process_directory example_env ''pkg'' True True = (Inl (SyntaxError ''invalid syntax''), [])
   \<and> process_directory example_env ''pkg'' True False =
       (Inr [\<lparr>doc_text =
               ''Module: mod \<newline>Docstring: desc \<newline>\<newline>Function: f\<newline>does f'',
             doc_metadata = [(''file_name'', ''mod.py'')]\<rparr>,
            \<lparr>doc_text = ''Module: tools \<newline>\<newline>Function: m\<newline>'',
             doc_metadata = [(''file_name'', ''tools.py'')]\<rparr>],
        [''Failed to parse file pkg/bad.py. Skipping. Error: invalid syntax'',
         ''Failed to parse file pkg/sub/gone.py. Skipping. Error: No such file''])"
proof -
  have r1: "read_module_text example_env ''pkg/sub/gone.py'' = Inl (OSError ''No such file'')"
    by (simp add: read_module_text_def example_env_def)
  have r2: "read_module_text example_env ''pkg/bad.py'' = Inr ''pkg/bad.py''"
    by (simp add: read_module_text_def example_env_def)
  have p2: "ast_parse example_env ''pkg/bad.py'' = Inl (SyntaxError ''invalid syntax'')"
    by (simp add: example_env_def)
  note t1 = process_directory_error_policy
    [of example_env "''pkg/sub/gone.py''" "OSError ''No such file''" "''gone''" _ "''pkg''" True]
  note t2 = process_directory_error_policy
    [of example_env "''pkg/bad.py''" "SyntaxError ''invalid syntax''" "''bad''"
        "''pkg/bad.py''" "''pkg''" True]
  from t1 r1 have g: "parse_module example_env ''gone'' ''pkg/sub/gone.py'' =
      Inl (OSError ''No such file'')"
    by blast
  from t2 r2 p2 have b: "parse_module example_env ''bad'' ''pkg/bad.py'' =
      Inl (SyntaxError ''invalid syntax'')"
    by blast
  from t2 have strict: "process_directory example_env ''pkg'' True True =
      (Inl (SyntaxError ''invalid syntax''), [])"
    by (simp add: example_batch example_parse_results)
  from t2 have lenient: "process_directory example_env ''pkg'' True False =
       (Inr [\<lparr>doc_text =
               ''Module: mod \<newline>Docstring: desc \<newline>\<newline>Function: f\<newline>does f'',
             doc_metadata = [(''file_name'', ''mod.py'')]\<rparr>,
            \<lparr>doc_text = ''Module: tools \<newline>\<newline>Function: m\<newline>'',
             doc_metadata = [(''file_name'', ''tools.py'')]\<rparr>],
        [''Failed to parse file pkg/bad.py. Skipping. Error: invalid syntax'',
         ''Failed to parse file pkg/sub/gone.py. Skipping. Error: No such file''])"
    by (simp add: example_batch example_parse_results warning_message_def)
  from r1 g r2 p2 b strict lenient show ?thesis by simp
qed

end
